theory Spec2Isabelle
  imports Complex_Main "HOL-Library.Sublist"
begin

section \<open>Values and errors\<close>

text \<open>
  Magnitudes are numpy floats. They are modelled as the reals extended by the quiet
  not-a-number value; rounding is not modelled. Every comparison with \<open>NaN\<close> is false and
  every sum with \<open>NaN\<close> is \<open>NaN\<close>, as in IEEE arithmetic.
\<close>

datatype npfloat = NaN | Fin real

fun fl_add :: "npfloat \<Rightarrow> npfloat \<Rightarrow> npfloat" where
  "fl_add (Fin x) (Fin y) = Fin (x + y)"
| "fl_add _ _ = NaN"

fun fl_less :: "npfloat \<Rightarrow> real \<Rightarrow> bool" where
  "fl_less (Fin x) b = (x < b)"
| "fl_less NaN b = False"

text \<open>
  The exceptions of the run: a missing catalog column, an index out of range (in the store
  into an array, or inside the percentile routine on an empty sample), a read of a local
  variable that was never assigned, a value a routine refuses, and whatever an external
  collaborator raises.
\<close>

datatype error =
    KeyError string
  | IndexError
  | UnboundLocalError string
  | ValueError
  | External string

section \<open>Configuration and catalog\<close>

text \<open>The attributes of the \<open>datamodel\<close> module that \<open>make_ast_inputs\<close> reads.\<close>

record datamodel =
  ast_maglimit :: "npfloat list"
  obsfile :: string
  filters :: "string list"
  ast_realization_per_model :: int
  ast_bands_above_maglimit :: int
  project :: string
  ast_n_flux_bins :: int
  ast_n_per_flux_bin :: int
  ast_models_selected_per_age :: int
  ast_with_positions :: bool
  ast_source_density_table :: "string option"
  ast_N_bins :: "int option"
  ast_background_table :: "string option"
  ast_reference_image :: "string option"
  ast_coord_boundary :: "(real list \<times> real list) option"
  ast_pixel_distribution :: real

text \<open>
  The observation catalog returned by \<open>get_obscat\<close>: its filter list
  (\<open>obsdata.filters\<close>), the alias resolution of its table
  (\<open>obsdata.data.resolve_alias\<close>) and its columns (\<open>obsdata[name]\<close>, a \<open>KeyError\<close>
  when the column is missing).
\<close>

record obscat =
  obs_filters :: "string list"
  resolve_alias :: "string \<Rightarrow> string"
  columns :: "string \<rightharpoonup> npfloat list"

section \<open>Magnitude cuts\<close>

text \<open>
  Python's \<open>str.replace(old, new)\<close>: every non-overlapping occurrence of \<open>old\<close>, found
  from the left, is replaced; an empty \<open>old\<close> matches before every character and at the
  end.
\<close>

function str_replace :: "string \<Rightarrow> string \<Rightarrow> string \<Rightarrow> string" where
  "str_replace old new [] = (if old = [] then new else [])"
| "str_replace old new (c # cs) =
     (if old = [] then new @ c # str_replace old new cs
      else if prefix old (c # cs)
        then new @ str_replace old new (drop (length old) (c # cs))
      else c # str_replace old new cs)"
  by pat_completeness auto
termination
  by (relation "measure (\<lambda>(old, new, s). length s)") auto

text \<open>
  Lines 55 to 57: the catalog column of a filter is its resolved alias with \<open>rate\<close>
  replaced by \<open>vega\<close> and then \<open>RATE\<close> by \<open>VEGA\<close>.
\<close>

definition rate_to_vega :: "string \<Rightarrow> string" where
  "rate_to_vega s = str_replace ''RATE'' ''VEGA'' (str_replace ''rate'' ''vega'' s)"

definition sfiltername :: "obscat \<Rightarrow> string \<Rightarrow> string" where
  "sfiltername obsdata filtername = rate_to_vega (resolve_alias obsdata filtername)"

text \<open>
  \<open>np.where(a < 99.0)\<close> gives the indices of the entries below the sentinel, and
  \<open>obsdata[keep][name]\<close> the entries at these indices (all of them in range, as they come
  from the same column).
\<close>

definition np_where :: "('a \<Rightarrow> bool) \<Rightarrow> 'a list \<Rightarrow> nat list" where
  "np_where p xs = filter (\<lambda>i. p (xs ! i)) [0..<length xs]"

definition take_rows :: "nat list \<Rightarrow> 'a list \<Rightarrow> 'a list" where
  "take_rows keep xs = map (\<lambda>i. xs ! i) keep"

text \<open>
  The loop of lines 54 to 59 over \<open>enumerate(obsdata.filters)\<close>, with \<open>np.percentile\<close>
  (a library routine) as the parameter \<open>pct\<close>, which returns a value or raises. The column
  lookup comes first, then the percentile, then the store into \<open>min_mags\<close>, which raises
  when \<open>k\<close> is out of range.
\<close>

fun min_mags_loop ::
  "(npfloat list \<Rightarrow> real \<Rightarrow> error + npfloat) \<Rightarrow> obscat \<Rightarrow> nat \<Rightarrow> string list
    \<Rightarrow> npfloat list \<Rightarrow> error + npfloat list" where
  "min_mags_loop pct obsdata k [] min_mags = Inr min_mags"
| "min_mags_loop pct obsdata k (filtername # rest) min_mags =
     (let name = sfiltername obsdata filtername in
      case columns obsdata name of
        None \<Rightarrow> Inl (KeyError name)
      | Some col \<Rightarrow>
          (let keep = np_where (\<lambda>v. fl_less v 99.0) col
           in case pct (take_rows keep col) 90.0 of
                Inl e \<Rightarrow> Inl e
              | Inr p \<Rightarrow>
                  if k < length min_mags
                  then min_mags_loop pct obsdata (Suc k) rest (min_mags[k := p])
                  else Inl IndexError))"

text \<open>
  \<open>min_mags + tmp_cuts\<close> on one-dimensional operands: numpy broadcasts an operand of
  length one, adds elementwise when the lengths agree and raises otherwise.
\<close>

definition np_add :: "npfloat list \<Rightarrow> npfloat list \<Rightarrow> error + npfloat list" where
  "np_add xs ys =
     (if length ys = 1 then Inr (map (\<lambda>x. fl_add x (hd ys)) xs)
      else if length xs = 1 then Inr (map (\<lambda>y. fl_add (hd xs) y) ys)
      else if length xs = length ys then Inr (map2 fl_add xs ys)
      else Inl ValueError)"

text \<open>Lines 48 to 62: the magnitude cuts handed to the SED selection.\<close>

definition construct_mag_cuts ::
  "(npfloat list \<Rightarrow> real \<Rightarrow> error + npfloat) \<Rightarrow> datamodel \<Rightarrow> obscat
    \<Rightarrow> error + npfloat list" where
  "construct_mag_cuts pct dm obsdata =
     (let mag_cuts = ast_maglimit dm in
      if length mag_cuts = 1 then
        (let tmp_cuts = mag_cuts;
             min_mags = replicate (length (filters dm)) (Fin 0)
         in case min_mags_loop pct obsdata 0 (obs_filters obsdata) min_mags of
              Inl e \<Rightarrow> Inl e
            | Inr min_mags' \<Rightarrow> np_add min_mags' tmp_cuts)
      else Inr mag_cuts)"

text \<open>
  \<open>numpy.percentile\<close> with its default linear interpolation, a library routine modelled
  from its documented behaviour. A percentage outside 0 to 100 is refused with
  \<open>ValueError\<close> before the sample is looked at, and an empty sample ends in
  \<open>IndexError\<close>. Otherwise the sorted sample is read at the position
  \<open>(n - 1) * q / 100\<close>, interpolating between the two neighbours, and a sample holding a
  \<open>NaN\<close> gives \<open>NaN\<close>. It is used where a concrete percentile routine is needed.
\<close>

fun fin_values :: "npfloat list \<Rightarrow> real list option" where
  "fin_values [] = Some []"
| "fin_values (NaN # vs) = None"
| "fin_values (Fin x # vs) = (case fin_values vs of None \<Rightarrow> None | Some xs \<Rightarrow> Some (x # xs))"

definition percentile_of :: "npfloat list \<Rightarrow> real \<Rightarrow> npfloat" where
  "percentile_of vs q =
     (case fin_values vs of
        None \<Rightarrow> NaN
      | Some xs \<Rightarrow>
          (let srt = sort xs;
               h = real (length xs - 1) * q / 100;
               lo = nat \<lfloor>h\<rfloor>;
               hi = min (Suc lo) (length xs - 1)
           in Fin (srt ! lo + (h - real lo) * (srt ! hi - srt ! lo))))"

definition np_percentile :: "npfloat list \<Rightarrow> real \<Rightarrow> error + npfloat" where
  "np_percentile vs q =
     (if q < 0 \<or> 100 < q then Inl ValueError
      else if vs = [] then Inl IndexError
      else Inr (percentile_of vs q))"

text \<open>
  The valid detections of a filter: the entries of its catalog column below the sentinel
  \<open>99.0\<close>; none when the catalog has no such column.
\<close>

definition valid_mags :: "obscat \<Rightarrow> string \<Rightarrow> npfloat list" where
  "valid_mags obsdata filtername =
     (case columns obsdata (sfiltername obsdata filtername) of
        None \<Rightarrow> []
      | Some col \<Rightarrow> filter (\<lambda>v. fl_less v 99.0) col)"

section \<open>External collaborators\<close>

text \<open>
  The samplers, the catalog loader and the table reader are not part of
  \<open>make_ast_inputs\<close>. Each call is recorded with the arguments the source passes, keyword
  arguments under their keyword; a keyword the source leaves out is \<open>None\<close>.
\<close>

record toothpick_args =
  tp_sedgrid :: string
  tp_filters :: "string list"
  tp_mag_cuts :: "npfloat list"
  tp_Nfilter :: int
  tp_N_fluxes :: int
  tp_min_N_per_flux :: int
  tp_outfile :: string
  tp_outfile_params :: string
  tp_bins_outfile :: string

record pick_models_args =
  pm_sedgrid :: string
  pm_filters :: "string list"
  pm_mag_cuts :: "npfloat list"
  pm_Nfilter :: int
  pm_N_stars :: int
  pm_Nrealize :: int
  pm_outfile :: string
  pm_outfile_params :: string

text \<open>
  \<open>pick_positions_from_map\<close> takes five positional arguments; the fifth is
  \<open>datamodel.ast_realization_per_model\<close>.
\<close>

record 'tab from_map_args =
  fm_catalog :: obscat
  fm_chosen_seds :: 'tab
  fm_input_map :: string
  fm_N_bins :: "int option"
  fm_arg5 :: int
  fm_outfile :: string
  fm_refimage :: "string option"
  fm_refimage_hdu :: int
  fm_wcs_origin :: int
  fm_Nrealize :: int
  fm_set_coord_boundary :: "(real list \<times> real list) option"
  fm_region_from_filters :: "string option"

record pick_positions_args =
  pp_catalog :: obscat
  pp_outfile :: string
  pp_pixel_distribution :: real
  pp_refimage :: "string option"

datatype 'tab call =
    Verify_input_format datamodel
  | Get_obscat string "string list"
  | Pick_models_toothpick_style toothpick_args
  | Pick_models pick_models_args
  | Table_read string string
  | Pick_positions_from_map "'tab from_map_args"
  | Pick_positions pick_positions_args

fun is_sampler_call :: "'tab call \<Rightarrow> bool" where
  "is_sampler_call (Pick_models_toothpick_style a) = True"
| "is_sampler_call (Pick_models a) = True"
| "is_sampler_call c = False"


text \<open>
  What the collaborators do is a parameter of the run: each one maps its arguments and
  the outside world \<open>'w\<close> (the files) to a result or an exception and the world it leaves.
  \<open>isfile\<close> is \<open>os.path.isfile\<close> and \<open>percentile\<close> is \<open>np.percentile\<close>.
\<close>

record ('w, 'tab) collaborators =
  verify_input_format :: "datamodel \<Rightarrow> 'w \<Rightarrow> (error + unit) \<times> 'w"
  get_obscat :: "string \<Rightarrow> string list \<Rightarrow> 'w \<Rightarrow> (error + obscat) \<times> 'w"
  percentile :: "npfloat list \<Rightarrow> real \<Rightarrow> error + npfloat"
  isfile :: "string \<Rightarrow> 'w \<Rightarrow> bool"
  pick_models_toothpick_style :: "toothpick_args \<Rightarrow> 'w \<Rightarrow> (error + 'tab) \<times> 'w"
  pick_models :: "pick_models_args \<Rightarrow> 'w \<Rightarrow> (error + 'tab) \<times> 'w"
  table_read :: "string \<Rightarrow> string \<Rightarrow> 'w \<Rightarrow> (error + 'tab) \<times> 'w"
  pick_positions_from_map :: "'tab from_map_args \<Rightarrow> 'w \<Rightarrow> (error + unit) \<times> 'w"
  pick_positions :: "pick_positions_args \<Rightarrow> 'w \<Rightarrow> (error + unit) \<times> 'w"

text \<open>
  The state of a run: the calls made so far, oldest first, and the world. A call is
  recorded when it is made, whether or not it raises.
\<close>

type_synonym ('w, 'tab) rstate = "'tab call list \<times> 'w"

definition invoke ::
  "'tab call \<Rightarrow> ('w \<Rightarrow> (error + 'a) \<times> 'w) \<Rightarrow> ('w, 'tab) rstate
    \<Rightarrow> (error + 'a) \<times> ('w, 'tab) rstate" where
  "invoke c f s = (case f (snd s) of (r, w') \<Rightarrow> (r, (fst s @ [c], w')))"

section \<open>The run\<close>

text \<open>The file names of lines 72 to 85 and 129: \<open>"./{0}/{0}<ending>".format(project)\<close>.\<close>

definition project_file :: "datamodel \<Rightarrow> string \<Rightarrow> string" where
  "project_file dm ending = ''./'' @ project dm @ ''/'' @ project dm @ ending"

definition outfile_seds :: "datamodel \<Rightarrow> string" where
  "outfile_seds dm = project_file dm ''_inputAST_seds.txt''"

definition outfile_params :: "datamodel \<Rightarrow> string" where
  "outfile_params dm = project_file dm ''_ASTparams.fits''"

definition bins_outfile :: "datamodel \<Rightarrow> string" where
  "bins_outfile dm = project_file dm ''_ASTfluxbins.txt''"

definition outfile :: "datamodel \<Rightarrow> string" where
  "outfile dm = project_file dm ''_inputAST.txt''"

text \<open>
  Lines 68 to 117. The local variable \<open>modelsedgrid_filename\<close> is assigned in the
  flux-bin branch only (line 85); the other branch reads it at line 104, as the first
  argument of \<open>pick_models\<close>, where it is still unassigned.
\<close>

definition select_seds ::
  "('w, 'tab) collaborators \<Rightarrow> datamodel \<Rightarrow> bool \<Rightarrow> npfloat list \<Rightarrow> ('w, 'tab) rstate
    \<Rightarrow> (error + 'tab) \<times> ('w, 'tab) rstate" where
  "select_seds ext dm flux_bin_method mag_cuts s =
     (let Nrealize = ast_realization_per_model dm;
          Nfilters = ast_bands_above_maglimit dm;
          modelsedgrid_filename = (None :: string option)
      in if \<not> isfile ext (outfile_seds dm) (snd s) then
           (if flux_bin_method then
              (let N_fluxes = ast_n_flux_bins dm;
                   min_N_per_flux = ast_n_per_flux_bin dm;
                   modelsedgrid_filename = Some (project_file dm ''_seds.grid.hd5'')
               in case modelsedgrid_filename of
                    None \<Rightarrow> (Inl (UnboundLocalError ''modelsedgrid_filename''), s)
                  | Some grid \<Rightarrow>
                      (let args = \<lparr>tp_sedgrid = grid, tp_filters = filters dm,
                                   tp_mag_cuts = mag_cuts, tp_Nfilter = Nfilters,
                                   tp_N_fluxes = N_fluxes, tp_min_N_per_flux = min_N_per_flux,
                                   tp_outfile = outfile_seds dm,
                                   tp_outfile_params = outfile_params dm,
                                   tp_bins_outfile = bins_outfile dm\<rparr>
                       in invoke (Pick_models_toothpick_style args)
                            (pick_models_toothpick_style ext args) s))
            else
              (let N_models = ast_models_selected_per_age dm
               in case modelsedgrid_filename of
                    None \<Rightarrow> (Inl (UnboundLocalError ''modelsedgrid_filename''), s)
                  | Some grid \<Rightarrow>
                      (let args = \<lparr>pm_sedgrid = grid, pm_filters = filters dm,
                                   pm_mag_cuts = mag_cuts, pm_Nfilter = Nfilters,
                                   pm_N_stars = N_models, pm_Nrealize = Nrealize,
                                   pm_outfile = outfile_seds dm,
                                   pm_outfile_params = outfile_params dm\<rparr>
                       in invoke (Pick_models args) (pick_models ext args) s)))
         else invoke (Table_read (outfile_seds dm) ''ascii'')
                (table_read ext (outfile_seds dm) ''ascii'') s)"

text \<open>Lines 125 to 173.\<close>

definition assign_positions ::
  "('w, 'tab) collaborators \<Rightarrow> datamodel \<Rightarrow> obscat \<Rightarrow> 'tab \<Rightarrow> ('w, 'tab) rstate
    \<Rightarrow> (error + unit) \<times> ('w, 'tab) rstate" where
  "assign_positions ext dm obsdata chosen_seds s =
     (if ast_with_positions dm then
        (case ast_source_density_table dm of
           Some sd_table \<Rightarrow>
             (let args = \<lparr>fm_catalog = obsdata, fm_chosen_seds = chosen_seds,
                          fm_input_map = sd_table, fm_N_bins = ast_N_bins dm,
                          fm_arg5 = ast_realization_per_model dm, fm_outfile = outfile dm,
                          fm_refimage = ast_reference_image dm, fm_refimage_hdu = 1,
                          fm_wcs_origin = 1, fm_Nrealize = 1,
                          fm_set_coord_boundary = ast_coord_boundary dm,
                          fm_region_from_filters = Some ''all''\<rparr>
              in invoke (Pick_positions_from_map args) (pick_positions_from_map ext args) s)
         | None \<Rightarrow>
             (case ast_background_table dm of
                Some bg_table \<Rightarrow>
                  (let args = \<lparr>fm_catalog = obsdata, fm_chosen_seds = chosen_seds,
                               fm_input_map = bg_table, fm_N_bins = ast_N_bins dm,
                               fm_arg5 = ast_realization_per_model dm, fm_outfile = outfile dm,
                               fm_refimage = ast_reference_image dm, fm_refimage_hdu = 1,
                               fm_wcs_origin = 1, fm_Nrealize = 1,
                               fm_set_coord_boundary = ast_coord_boundary dm,
                               fm_region_from_filters = None\<rparr>
                   in invoke (Pick_positions_from_map args)
                        (pick_positions_from_map ext args) s)
              | None \<Rightarrow>
                  (let args = \<lparr>pp_catalog = obsdata, pp_outfile = outfile dm,
                               pp_pixel_distribution = ast_pixel_distribution dm,
                               pp_refimage = ast_reference_image dm\<rparr>
                   in invoke (Pick_positions args) (pick_positions ext args) s)))
      else (Inr (), s))"

text \<open>
  \<open>make_ast_inputs(flux_bin_method)\<close>: the parameter check, the catalog, the magnitude
  cuts, the SED selection and the positions, each step ending the run when it raises.
\<close>

definition make_ast_inputs ::
  "('w, 'tab) collaborators \<Rightarrow> datamodel \<Rightarrow> bool \<Rightarrow> ('w, 'tab) rstate
    \<Rightarrow> (error + unit) \<times> ('w, 'tab) rstate" where
  "make_ast_inputs ext dm flux_bin_method s0 =
     (case invoke (Verify_input_format dm) (verify_input_format ext dm) s0 of
        (Inl e, s1) \<Rightarrow> (Inl e, s1)
      | (Inr u, s1) \<Rightarrow>
          (case invoke (Get_obscat (obsfile dm) (filters dm))
                  (get_obscat ext (obsfile dm) (filters dm)) s1 of
             (Inl e, s2) \<Rightarrow> (Inl e, s2)
           | (Inr obsdata, s2) \<Rightarrow>
               (case construct_mag_cuts (percentile ext) dm obsdata of
                  Inl e \<Rightarrow> (Inl e, s2)
                | Inr mag_cuts \<Rightarrow>
                    (case select_seds ext dm flux_bin_method mag_cuts s2 of
                       (Inl e, s3) \<Rightarrow> (Inl e, s3)
                     | (Inr chosen_seds, s3) \<Rightarrow>
                         assign_positions ext dm obsdata chosen_seds s3))))"

section \<open>Concrete configurations\<close>

text \<open>
  A two-filter catalog in the style of the PHAT survey, used to evaluate runs: the alias
  of the first filter is an upper-case flux-rate column, that of the second a lower-case
  one, and each magnitude column has one undetected source.
\<close>

definition phat_catalog :: obscat where
  "phat_catalog =
     \<lparr>obs_filters = [''HST_WFC3_F475W'', ''HST_WFC3_F814W''],
      resolve_alias = (\<lambda>f. if f = ''HST_WFC3_F475W'' then ''F475W_RATE''
                          else if f = ''HST_WFC3_F814W'' then ''F814W_rate'' else f),
      columns = [''F475W_VEGA'' \<mapsto> [Fin 24, Fin 99, Fin 26],
                 ''F814W_vega'' \<mapsto> [Fin 22, Fin 23, Fin 99.999]]\<rparr>"

definition phat_datamodel :: datamodel where
  "phat_datamodel =
     \<lparr>ast_maglimit = [Fin 5],
      obsfile = ''phat.fits'',
      filters = [''HST_WFC3_F475W'', ''HST_WFC3_F814W''],
      ast_realization_per_model = 20,
      ast_bands_above_maglimit = 2,
      project = ''phat'',
      ast_n_flux_bins = 40,
      ast_n_per_flux_bin = 50,
      ast_models_selected_per_age = 70,
      ast_with_positions = True,
      ast_source_density_table = None,
      ast_N_bins = None,
      ast_background_table = None,
      ast_reference_image = Some ''phat_ref.fits'',
      ast_coord_boundary = None,
      ast_pixel_distribution = 10\<rparr>"


text \<open>
  Catalog objects whose own filter list has the first configured filter only: over the
  full table, and over the table with no detection in the second filter.
\<close>

definition first_filter_catalog :: obscat where
  "first_filter_catalog = phat_catalog\<lparr>obs_filters := [''HST_WFC3_F475W'']\<rparr>"


text \<open>The configuration with a background map only.\<close>

definition background_datamodel :: datamodel where
  "background_datamodel =
     phat_datamodel\<lparr>ast_background_table := Some ''phat_background_map.hd5'',
                    ast_N_bins := Some 4\<rparr>"

text \<open>A single filter with a single cut value given for it.\<close>

definition single_catalog :: obscat where
  "single_catalog =
     \<lparr>obs_filters = [''HST_WFC3_F475W''],
      resolve_alias = (\<lambda>f. ''F475W_RATE''),
      columns = [''F475W_VEGA'' \<mapsto> [Fin 24, Fin 99, Fin 26]]\<rparr>"

definition single_datamodel :: datamodel where
  "single_datamodel =
     phat_datamodel\<lparr>ast_maglimit := [Fin 25], filters := [''HST_WFC3_F475W'']\<rparr>"

text \<open>A catalog whose alias spells the flux-rate token with a capital letter only.\<close>

definition capitalised_catalog :: obscat where
  "capitalised_catalog =
     \<lparr>obs_filters = [''HST_WFC3_F475W''],
      resolve_alias = (\<lambda>f. ''F475W_Rate''),
      columns = [''F475W_Vega'' \<mapsto> [Fin 24, Fin 26],
                 ''F475W_vega'' \<mapsto> [Fin 24, Fin 26],
                 ''F475W_VEGA'' \<mapsto> [Fin 24, Fin 26]]\<rparr>"

text \<open>One cut per filter, and both auxiliary maps configured at once.\<close>

definition vector_datamodel :: datamodel where
  "vector_datamodel = phat_datamodel\<lparr>ast_maglimit := [Fin 30, Fin 29]\<rparr>"

definition both_maps_datamodel :: datamodel where
  "both_maps_datamodel =
     phat_datamodel\<lparr>ast_source_density_table := Some ''phat_sourceden_map.hd5'',
                    ast_background_table := Some ''phat_background_map.hd5'',
                    ast_N_bins := Some 4\<rparr>"

text \<open>
  Collaborators that always succeed, over a world that is the list of the files present:
  the catalog loader returns the given catalog, the samplers create their output files,
  and a table is the name of what produced it.
\<close>

definition sim_ext :: "obscat \<Rightarrow> (string list, string) collaborators" where
  "sim_ext cat =
     \<lparr>verify_input_format = (\<lambda>dm w. (Inr (), w)),
      get_obscat = (\<lambda>file fs w. (Inr cat, w)),
      percentile = np_percentile,
      isfile = (\<lambda>p w. p \<in> set w),
      pick_models_toothpick_style =
        (\<lambda>a w. (Inr ''pick_models_toothpick_style'',
                 tp_outfile a # tp_outfile_params a # tp_bins_outfile a # w)),
      pick_models = (\<lambda>a w. (Inr ''pick_models'', pm_outfile a # pm_outfile_params a # w)),
      table_read = (\<lambda>p fmt w. (Inr ''Table.read'', w)),
      pick_positions_from_map = (\<lambda>a w. (Inr (), fm_outfile a # w)),
      pick_positions = (\<lambda>a w. (Inr (), pp_outfile a # w))\<rparr>"


section \<open>Magnitude cuts: properties\<close>

lemma take_rows_np_where: "take_rows (np_where p xs) xs = filter p xs"
proof -
  have "map (\<lambda>i. xs ! i) (filter (\<lambda>i. p (xs ! i)) [0..<length xs])
        = filter p (map (\<lambda>i. xs ! i) [0..<length xs])"
    by (simp add: filter_map comp_def)
  also have "map (\<lambda>i. xs ! i) [0..<length xs] = xs"
    by (rule map_nth)
  finally show ?thesis by (simp add: take_rows_def np_where_def)
qed

text \<open>One turn of the loop, for a filter whose column exists.\<close>

lemma min_mags_loop_step:
  assumes "columns obsdata (sfiltername obsdata f) = Some col"
  shows "min_mags_loop pct obsdata k (f # fs) mm =
           (case pct (valid_mags obsdata f) 90 of
              Inl e \<Rightarrow> Inl e
            | Inr p \<Rightarrow> if k < length mm
                       then min_mags_loop pct obsdata (Suc k) fs (mm[k := p])
                       else Inl IndexError)"
  using assms by (simp add: take_rows_np_where valid_mags_def)

text \<open>
  The loop writes the percentile of each filter's valid detections at the filter's
  position and leaves the rest of the array alone, as long as every column exists, every
  percentile is returned and the array is long enough.
\<close>

lemma min_mags_loop_result:
  assumes "\<forall>f \<in> set fs. columns obsdata (sfiltername obsdata f) \<noteq> None"
    and "\<forall>f \<in> set fs. pct (valid_mags obsdata f) 90 = Inr (p f)"
    and "k + length fs \<le> length mm"
  shows "min_mags_loop pct obsdata k fs mm =
           Inr (take k mm @ map p fs @ drop (k + length fs) mm)"
  using assms
proof (induction fs arbitrary: k mm)
  case Nil
  then show ?case by simp
next
  case (Cons f fs)
  from Cons.prems(1) obtain col where col: "columns obsdata (sfiltername obsdata f) = Some col"
    by auto
  have pf: "pct (valid_mags obsdata f) 90 = Inr (p f)"
    using Cons.prems(2) by simp
  have k: "k < length mm" using Cons.prems(3) by simp
  have step: "min_mags_loop pct obsdata k (f # fs) mm
              = min_mags_loop pct obsdata (Suc k) fs (mm[k := p f])"
    using k by (simp only: min_mags_loop_step [OF col] pf sum.case if_True)
  have ih: "min_mags_loop pct obsdata (Suc k) fs (mm[k := p f]) =
           Inr (take (Suc k) (mm[k := p f]) @ map p fs
                @ drop (Suc k + length fs) (mm[k := p f]))"
    using Cons.prems by (intro Cons.IH) auto
  have t: "take (Suc k) (mm[k := p f]) = take k mm @ [p f]"
    using k by (simp add: take_Suc_conv_app_nth)
  have d: "drop (Suc k + length fs) (mm[k := p f]) = drop (k + length (f # fs)) mm"
    by simp
  show ?case unfolding step ih t d by simp
qed

lemma construct_mag_cuts_scalar:
  assumes "ast_maglimit dm = [c]"
    and "obs_filters obsdata = filters dm"
    and "\<forall>f \<in> set (filters dm). columns obsdata (sfiltername obsdata f) \<noteq> None"
    and "\<forall>f \<in> set (filters dm). pct (valid_mags obsdata f) 90 = Inr (p f)"
  shows "construct_mag_cuts pct dm obsdata = Inr (map (\<lambda>f. fl_add (p f) c) (filters dm))"
proof -
  have "min_mags_loop pct obsdata 0 (filters dm) (replicate (length (filters dm)) (Fin 0))
        = Inr (map p (filters dm))"
    using assms(3,4) by (subst min_mags_loop_result [where p = p]) auto
  then show ?thesis
    using assms(1,2) by (simp add: construct_mag_cuts_def np_add_def comp_def)
qed

lemma valid_mags_column:
  "valid_mags obsdata f \<noteq> [] \<Longrightarrow> columns obsdata (sfiltername obsdata f) \<noteq> None"
  by (auto simp: valid_mags_def split: option.splits)

lemma np_percentile_90:
  "np_percentile vs 90 = (if vs = [] then Inl IndexError else Inr (percentile_of vs 90))"
  by (simp add: np_percentile_def)




lemmas phat_eval =
  phat_catalog_def phat_datamodel_def sfiltername_def rate_to_vega_def valid_mags_def
  construct_mag_cuts_def np_add_def np_percentile_def percentile_of_def np_where_def
  take_rows_def

text \<open>
  C1, as the code has it. With a single scalar cut \<open>c\<close>, and a catalog whose own filter
  list is the configured one and which has at least one valid detection (a magnitude
  below 99.0) in each configured filter, the resolved cuts are, filter by filter and in
  the order of the configured filter list, the 90th percentile of the filter's valid
  magnitudes plus \<open>c\<close>; there are as many as filters. This holds with numpy's percentile,
  and with any percentile routine that returns a value for each filter.
\<close>

theorem scalar_cut_is_percentile_plus_offset:
  assumes "ast_maglimit dm = [c]"
    and "obs_filters obsdata = filters dm"
    and "\<forall>f \<in> set (filters dm). valid_mags obsdata f \<noteq> []"
  shows "construct_mag_cuts np_percentile dm obsdata =
           Inr (map (\<lambda>f. fl_add (percentile_of (valid_mags obsdata f) 90) c) (filters dm))
         \<and> ((\<forall>f \<in> set (filters dm). pct (valid_mags obsdata f) 90 = Inr (p f))
              \<longrightarrow> construct_mag_cuts pct dm obsdata
                    = Inr (map (\<lambda>f. fl_add (p f) c) (filters dm)))"
proof -
  have cols: "\<forall>f \<in> set (filters dm). columns obsdata (sfiltername obsdata f) \<noteq> None"
    using assms(3) by (auto dest: valid_mags_column)
  have "\<forall>f \<in> set (filters dm).
          np_percentile (valid_mags obsdata f) 90 = Inr (percentile_of (valid_mags obsdata f) 90)"
    using assms(3) by (simp add: np_percentile_90)
  with assms(1,2) cols
  have "construct_mag_cuts np_percentile dm obsdata =
           Inr (map (\<lambda>f. fl_add (percentile_of (valid_mags obsdata f) 90) c) (filters dm))"
    by (rule construct_mag_cuts_scalar)
  moreover have "construct_mag_cuts pct dm obsdata = Inr (map (\<lambda>f. fl_add (p f) c) (filters dm))"
    if "\<forall>f \<in> set (filters dm). pct (valid_mags obsdata f) 90 = Inr (p f)"
    using assms(1,2) cols that by (rule construct_mag_cuts_scalar)
  ultimately show ?thesis by blast
qed

theorem scalar_cut_is_percentile_plus_offset_witness:
  "ast_maglimit phat_datamodel = [Fin 5]
   \<and> obs_filters phat_catalog = filters phat_datamodel
   \<and> filters phat_datamodel = [''HST_WFC3_F475W'', ''HST_WFC3_F814W'']
   \<and> valid_mags phat_catalog ''HST_WFC3_F475W'' = [Fin 24, Fin 26]
   \<and> valid_mags phat_catalog ''HST_WFC3_F814W'' = [Fin 22, Fin 23]
   \<and> np_percentile [Fin 24, Fin 26] 90 = Inr (Fin 25.8)
   \<and> np_percentile [Fin 22, Fin 23] 90 = Inr (Fin 22.9)
   \<and> construct_mag_cuts np_percentile phat_datamodel phat_catalog
       = Inr [Fin 30.8, Fin 27.9]"
proof -
  have h1: "ast_maglimit phat_datamodel = [Fin 5]"
    by (simp add: phat_datamodel_def)
  have h2: "obs_filters phat_catalog = filters phat_datamodel"
    by (simp add: phat_datamodel_def phat_catalog_def)
  have h3: "\<forall>f \<in> set (filters phat_datamodel). valid_mags phat_catalog f \<noteq> []"
    by (simp add: phat_eval)
  let ?p = "\<lambda>f. percentile_of (valid_mags phat_catalog f) 90"
  have h4: "\<forall>f \<in> set (filters phat_datamodel).
              np_percentile (valid_mags phat_catalog f) 90 = Inr (?p f)"
    by (simp add: phat_eval)
  note main = scalar_cut_is_percentile_plus_offset
    [OF h1 h2 h3, where pct = np_percentile and p = ?p]
  have "construct_mag_cuts np_percentile phat_datamodel phat_catalog
        = Inr (map (\<lambda>f. fl_add (?p f) (Fin 5)) (filters phat_datamodel))"
    using main h4 by blast
  also have "\<dots> = Inr [Fin 30.8, Fin 27.9]"
    by (simp add: phat_eval)
  finally show ?thesis using h1 h2 by (simp add: phat_eval)
qed

text \<open>
  C1 as stated fails for a catalog object whose own filter list is not the configured
  one: the loop runs over the catalog's list, and the cut of a configured filter it does
  not list is the bare offset, although the filter has valid detections.
\<close>

theorem unlisted_filter_cut_counterexample:
  "ast_maglimit phat_datamodel = [Fin 5]
   \<and> filters phat_datamodel = [''HST_WFC3_F475W'', ''HST_WFC3_F814W'']
   \<and> valid_mags first_filter_catalog ''HST_WFC3_F475W'' = [Fin 24, Fin 26]
   \<and> valid_mags first_filter_catalog ''HST_WFC3_F814W'' = [Fin 22, Fin 23]
   \<and> np_percentile [Fin 22, Fin 23] 90 = Inr (Fin 22.9)
   \<and> construct_mag_cuts np_percentile phat_datamodel first_filter_catalog
       = Inr [Fin 30.8, Fin 5]"
  by (simp add: phat_eval first_filter_catalog_def)




text \<open>
  C8, as the code has it. A cut vector with one value per filter is passed on unchanged,
  whatever the catalog and the percentile routine, when there is not exactly one filter.
  With exactly one filter, listed by the catalog, the one value \<open>c\<close> given for it is
  taken for an offset: the resolver looks the column up, asks for the percentile of the
  valid magnitudes and returns that plus \<open>c\<close>, or the error of the lookup or of the
  percentile.
\<close>

theorem vector_cut_passes_through:
  "(length (ast_maglimit dm) = length (filters dm) \<and> length (filters dm) \<noteq> 1
      \<longrightarrow> construct_mag_cuts pct dm obsdata = Inr (ast_maglimit dm))
   \<and> (filters dm = [f] \<and> ast_maglimit dm = [c] \<and> obs_filters obsdata = [f]
      \<longrightarrow> construct_mag_cuts pct dm obsdata
          = (case columns obsdata (sfiltername obsdata f) of
               None \<Rightarrow> Inl (KeyError (sfiltername obsdata f))
             | Some col \<Rightarrow>
                 (case pct (valid_mags obsdata f) 90 of
                    Inl e \<Rightarrow> Inl e
                  | Inr p \<Rightarrow> Inr [fl_add p c])))"
proof -
  have "construct_mag_cuts pct dm obsdata = Inr (ast_maglimit dm)"
    if "length (ast_maglimit dm) = length (filters dm)" "length (filters dm) \<noteq> 1"
    using that by (simp add: construct_mag_cuts_def)
  moreover have "construct_mag_cuts pct dm obsdata
          = (case columns obsdata (sfiltername obsdata f) of
               None \<Rightarrow> Inl (KeyError (sfiltername obsdata f))
             | Some col \<Rightarrow>
                 (case pct (valid_mags obsdata f) 90 of
                    Inl e \<Rightarrow> Inl e
                  | Inr p \<Rightarrow> Inr [fl_add p c]))"
    if "filters dm = [f]" "ast_maglimit dm = [c]" "obs_filters obsdata = [f]"
  proof (cases "columns obsdata (sfiltername obsdata f)")
    case None
    with that show ?thesis by (simp add: construct_mag_cuts_def)
  next
    case (Some col)
    have "min_mags_loop pct obsdata 0 [f] [Fin 0]
          = (case pct (valid_mags obsdata f) 90 of Inl e \<Rightarrow> Inl e | Inr p \<Rightarrow> Inr [p])"
      by (simp only: min_mags_loop_step [OF Some]) (simp split: sum.splits)
    with that show ?thesis
      by (simp add: construct_mag_cuts_def Some np_add_def split: sum.splits)
  qed
  ultimately show ?thesis by blast
qed

theorem vector_cut_passes_through_witness:
  "length (ast_maglimit vector_datamodel) = length (filters vector_datamodel)
   \<and> length (filters vector_datamodel) = 2
   \<and> construct_mag_cuts np_percentile vector_datamodel phat_catalog
       = Inr [Fin 30, Fin 29]
   \<and> filters single_datamodel = [''HST_WFC3_F475W'']
   \<and> ast_maglimit single_datamodel = [Fin 25]
   \<and> obs_filters single_catalog = [''HST_WFC3_F475W'']
   \<and> columns single_catalog (sfiltername single_catalog ''HST_WFC3_F475W'')
       = Some [Fin 24, Fin 99, Fin 26]
   \<and> np_percentile (valid_mags single_catalog ''HST_WFC3_F475W'') 90 = Inr (Fin 25.8)
   \<and> construct_mag_cuts np_percentile single_datamodel single_catalog = Inr [Fin 50.8]"
proof -
  have h1: "length (ast_maglimit vector_datamodel) = length (filters vector_datamodel)"
    by (simp add: vector_datamodel_def phat_datamodel_def)
  have h2: "length (filters vector_datamodel) \<noteq> 1" "length (filters vector_datamodel) = 2"
    by (simp_all add: vector_datamodel_def phat_datamodel_def)
  have g1: "filters single_datamodel = [''HST_WFC3_F475W'']"
    and g2: "ast_maglimit single_datamodel = [Fin 25]"
    by (simp_all add: single_datamodel_def phat_datamodel_def)
  have g3: "obs_filters single_catalog = [''HST_WFC3_F475W'']"
    by (simp add: single_catalog_def)
  have g4: "columns single_catalog (sfiltername single_catalog ''HST_WFC3_F475W'')
              = Some [Fin 24, Fin 99, Fin 26]"
    by (simp add: phat_eval single_catalog_def)
  have g5: "np_percentile (valid_mags single_catalog ''HST_WFC3_F475W'') 90 = Inr (Fin 25.8)"
    by (simp add: phat_eval single_catalog_def)
  have "construct_mag_cuts np_percentile vector_datamodel phat_catalog
        = Inr (ast_maglimit vector_datamodel)"
    using vector_cut_passes_through
      [where dm = vector_datamodel and pct = np_percentile and obsdata = phat_catalog] h1 h2(1)
    by blast
  then have a: "construct_mag_cuts np_percentile vector_datamodel phat_catalog
                  = Inr [Fin 30, Fin 29]"
    by (simp add: vector_datamodel_def phat_datamodel_def)
  have "construct_mag_cuts np_percentile single_datamodel single_catalog
          = (case columns single_catalog (sfiltername single_catalog ''HST_WFC3_F475W'') of
               None \<Rightarrow> Inl (KeyError (sfiltername single_catalog ''HST_WFC3_F475W''))
             | Some col \<Rightarrow>
                 (case np_percentile (valid_mags single_catalog ''HST_WFC3_F475W'') 90 of
                    Inl e \<Rightarrow> Inl e
                  | Inr p \<Rightarrow> Inr [fl_add p (Fin 25)]))"
    using vector_cut_passes_through
      [where dm = single_datamodel and f = "''HST_WFC3_F475W''" and c = "Fin 25"
         and obsdata = single_catalog and pct = np_percentile]
      g1 g2 g3 by blast
  then have b: "construct_mag_cuts np_percentile single_datamodel single_catalog
                  = Inr [Fin 50.8]"
    by (simp only: g4 g5 option.case sum.case) simp
  show ?thesis using h1 h2(2) a g1 g2 g3 g4 g5 b by blast
qed

text \<open>
  C8 as stated fails for one filter: the single value given for it is taken for an offset
  and added to the percentile of the catalog.
\<close>

theorem single_filter_cut_counterexample:
  "length (ast_maglimit single_datamodel) = length (filters single_datamodel)
   \<and> ast_maglimit single_datamodel = [Fin 25]
   \<and> construct_mag_cuts np_percentile single_datamodel single_catalog = Inr [Fin 50.8]"
  by (simp add: phat_eval single_datamodel_def single_catalog_def)

section \<open>Column names: properties\<close>

lemma str_replace_unchanged:
  "old \<noteq> [] \<Longrightarrow> \<not> sublist old s \<Longrightarrow> str_replace old new s = s"
proof (induction s)
  case Nil
  then show ?case by simp
next
  case (Cons c cs)
  then have "\<not> prefix old (c # cs)" and "\<not> sublist old cs"
    by (auto simp: sublist_Cons_right)
  with Cons show ?case by simp
qed

text \<open>
  A word that does not contain the first character of the replacement can only begin, in
  the result, where it already began in the argument.
\<close>

lemma prefix_str_replace:
  "old \<noteq> [] \<Longrightarrow> new \<noteq> [] \<Longrightarrow> hd new \<notin> set u
    \<Longrightarrow> prefix u (str_replace old new s) \<Longrightarrow> prefix u s"
proof (induction old new s arbitrary: u rule: str_replace.induct)
  case (1 old new)
  then show ?case by simp
next
  case (2 old new c cs)
  show ?case
  proof (cases u)
    case Nil
    then show ?thesis by simp
  next
    case (Cons x u')
    show ?thesis
    proof (cases "prefix old (c # cs)")
      case True
      with "2.prems" have "prefix (x # u') (new @ str_replace old new (drop (length old) (c # cs)))"
        by (simp add: Cons)
      moreover obtain n new' where new: "new = n # new'"
        using "2.prems"(2) by (cases new) auto
      ultimately have "x = n" by simp
      then have "hd new \<in> set u"
        by (simp add: Cons new)
      with "2.prems"(3) show ?thesis by simp
    next
      case False
      with "2.prems" have p: "prefix (x # u') (c # str_replace old new cs)"
        by (simp add: Cons)
      then have "x = c" and "prefix u' (str_replace old new cs)" by simp_all
      moreover have "hd new \<notin> set u'"
        using "2.prems"(3) by (simp add: Cons)
      ultimately have "prefix u' cs"
        using "2.IH"(3) [of u'] "2.prems"(1,2) False by simp
      with \<open>x = c\<close> show ?thesis by (simp add: Cons)
    qed
  qed
qed

text \<open>A word whose first character is not in \<open>m\<close> cannot begin inside \<open>m\<close>.\<close>

lemma sublist_skip_left:
  "u \<noteq> [] \<Longrightarrow> hd u \<notin> set m \<Longrightarrow> sublist u (m @ q) \<Longrightarrow> sublist u q"
proof (induction m)
  case Nil
  then show ?case by simp
next
  case (Cons a m)
  from Cons.prems(1) obtain x u' where u: "u = x # u'" by (cases u) auto
  from Cons.prems(3) have "prefix u (a # m @ q) \<or> sublist u (m @ q)"
    by (simp add: sublist_Cons_right)
  moreover have "\<not> prefix u (a # m @ q)"
    using Cons.prems(2) by (simp add: u)
  ultimately have "sublist u (m @ q)" by simp
  moreover have "hd u \<notin> set m" using Cons.prems(2) by simp
  ultimately show ?case using Cons.IH Cons.prems(1) by simp
qed

lemma sublist_disjoint_middle:
  assumes "sublist u (p @ m @ q)" and "set u \<inter> set m = {}" and "m \<noteq> []"
  shows "sublist u p \<or> sublist u q"
proof (cases "u = []")
  case True
  then show ?thesis by simp
next
  case False
  then have hd: "hd u \<notin> set m"
    using assms(2) by (cases u) auto
  from assms(1) have "sublist u p \<or> sublist u (m @ q)
    \<or> (\<exists>u1 u2. u = u1 @ u2 \<and> suffix u1 p \<and> prefix u2 (m @ q))"
    by (simp only: sublist_append)
  then consider "sublist u p" | "sublist u (m @ q)"
    | u1 u2 where "u = u1 @ u2" "suffix u1 p" "prefix u2 (m @ q)"
    by blast
  then show ?thesis
  proof cases
    case 1
    then show ?thesis by simp
  next
    case 2
    with False hd have "sublist u q" by (rule sublist_skip_left)
    then show ?thesis by simp
  next
    case 3
    show ?thesis
    proof (cases u2)
      case Nil
      with 3(1,2) show ?thesis by simp
    next
      case (Cons x u2')
      obtain y m' where m: "m = y # m'" using assms(3) by (cases m) auto
      from 3(3) have "x = y" by (simp add: Cons m)
      then have "x \<in> set u \<inter> set m" by (simp add: 3(1) Cons m)
      with assms(2) show ?thesis by simp
    qed
  qed
qed

text \<open>Replacing creates no occurrence of such a word.\<close>

lemma sublist_str_replace:
  "old \<noteq> [] \<Longrightarrow> new \<noteq> [] \<Longrightarrow> u \<noteq> [] \<Longrightarrow> hd new \<notin> set u \<Longrightarrow> hd u \<notin> set new
    \<Longrightarrow> sublist u (str_replace old new s) \<Longrightarrow> sublist u s"
proof (induction old new s rule: str_replace.induct)
  case (1 old new)
  then show ?case by simp
next
  case (2 old new c cs)
  show ?case
  proof (cases "prefix old (c # cs)")
    case True
    with "2.prems" have "sublist u (new @ str_replace old new (drop (length old) (c # cs)))"
      by simp
    with "2.prems"(3,5) have "sublist u (str_replace old new (drop (length old) (c # cs)))"
      by (rule sublist_skip_left)
    then have "sublist u (drop (length old) (c # cs))"
      using "2.IH"(2) "2.prems"(1,2,3,4,5) True by simp
    then show ?thesis
      by (meson sublist_drop sublist_order.order_trans)
  next
    case False
    with "2.prems" have "sublist u (c # str_replace old new cs)" by simp
    then consider "prefix u (c # str_replace old new cs)" | "sublist u (str_replace old new cs)"
      by (auto simp: sublist_Cons_right)
    then show ?thesis
    proof cases
      case 1
      then have "prefix u (str_replace old new (c # cs))"
        using False "2.prems"(1) by simp
      with "2.prems"(1,2,4) have "prefix u (c # cs)"
        by (rule prefix_str_replace)
      then show ?thesis by (rule prefix_imp_sublist)
    next
      case 2
      then have "sublist u cs"
        using "2.IH"(3) "2.prems" False by simp
      then show ?thesis by (simp add: sublist_Cons_right)
    qed
  qed
qed

text \<open>
  No occurrence of the replaced word is left when neither word contains the first
  character of the other.
\<close>

lemma str_replace_removes_old:
  assumes "old \<noteq> []" and "new \<noteq> []" and "hd new \<notin> set old" and "hd old \<notin> set new"
  shows "\<not> sublist old (str_replace old new s)"
proof (induction s rule: length_induct)
  case (1 s)
  show ?case
  proof (cases s)
    case Nil
    then show ?thesis using assms(1) by simp
  next
    case (Cons c cs)
    show ?thesis
    proof (cases "prefix old (c # cs)")
      case True
      have "length (drop (length old) s) < length s"
        using assms(1) Cons by simp
      with 1 have "\<not> sublist old (str_replace old new (drop (length old) s))"
        by blast
      then have "\<not> sublist old (new @ str_replace old new (drop (length old) s))"
        using sublist_skip_left [OF assms(1,4)] by (rule contrapos_nn)
      then show ?thesis using True assms(1) Cons by simp
    next
      case False
      have "\<not> prefix old (str_replace old new s)"
        using False prefix_str_replace [OF assms(1,2,3)] unfolding Cons by (rule contrapos_nn)
      moreover have "\<not> sublist old (str_replace old new cs)"
        using 1 Cons by simp
      ultimately show ?thesis
        using False assms(1) Cons by (simp add: sublist_Cons_right)
    qed
  qed
qed

lemma short_or_long:
  obtains "p = []" | a where "p = [a]" | a b where "p = [a, b]"
    | a b d r where "p = a # b # d # r"
proof (cases p)
  case Nil
  then show ?thesis using that by simp
next
  case (Cons a p1)
  show ?thesis
  proof (cases p1)
    case Nil
    then show ?thesis using that Cons by simp
  next
    case (Cons b p2)
    show ?thesis
    proof (cases p2)
      case Nil
      then show ?thesis using that \<open>p = a # p1\<close> \<open>p1 = b # p2\<close> by simp
    next
      case (Cons d r)
      then show ?thesis using that \<open>p = a # p1\<close> \<open>p1 = b # p2\<close> by simp
    qed
  qed
qed

text \<open>
  The four letters of the token differ, so no occurrence can begin before the token and
  reach into it.
\<close>

lemma rate_boundary:
  assumes "\<not> prefix ''rate'' (c # p)"
  shows "\<not> prefix ''rate'' (c # p @ ''rate'' @ q)"
proof (cases p rule: short_or_long)
  case 1
  then show ?thesis by simp
next
  case (2 a)
  then show ?thesis by simp
next
  case (3 a b)
  then show ?thesis by simp
next
  case (4 a b d r)
  then show ?thesis using assms by simp
qed

lemma RATE_boundary:
  assumes "\<not> prefix ''RATE'' (c # p)"
  shows "\<not> prefix ''RATE'' (c # p @ ''RATE'' @ q)"
proof (cases p rule: short_or_long)
  case 1
  then show ?thesis by simp
next
  case (2 a)
  then show ?thesis by simp
next
  case (3 a b)
  then show ?thesis by simp
next
  case (4 a b d r)
  then show ?thesis using assms by simp
qed

lemma str_replace_skip:
  "old \<noteq> [] \<Longrightarrow> \<not> prefix old (c # cs)
    \<Longrightarrow> str_replace old new (c # cs) = c # str_replace old new cs"
  by simp

lemma str_replace_hit:
  "old \<noteq> [] \<Longrightarrow> str_replace old new (old @ q) = new @ str_replace old new q"
  by (cases old) simp_all

text \<open>
  An occurrence that no earlier one reaches into is the first to be replaced, and what
  comes before it is kept.
\<close>

lemma str_replace_token:
  assumes "old \<noteq> []"
    and boundary: "\<And>c p. \<not> prefix old (c # p) \<Longrightarrow> \<not> prefix old (c # p @ old @ q)"
  shows "\<not> sublist old p \<Longrightarrow>
     str_replace old new (p @ old @ q) = p @ new @ str_replace old new q"
proof (induction p)
  case Nil
  show ?case using assms(1) by (simp add: str_replace_hit)
next
  case (Cons c p)
  then have "\<not> prefix old (c # p)" and np: "\<not> sublist old p"
    by (simp_all add: sublist_Cons_right)
  then have nb: "\<not> prefix old (c # p @ old @ q)"
    by (intro boundary)
  have "str_replace old new ((c # p) @ old @ q) = str_replace old new (c # p @ old @ q)"
    by (simp only: append_Cons)
  also have "\<dots> = c # str_replace old new (p @ old @ q)"
    using assms(1) nb by (rule str_replace_skip)
  also have "\<dots> = c # p @ new @ str_replace old new q"
    by (simp only: Cons.IH [OF np])
  finally show ?case by (simp only: append_Cons)
qed

lemma str_replace_rate_token:
  "\<not> sublist ''rate'' p \<Longrightarrow>
     str_replace ''rate'' new (p @ ''rate'' @ q) = p @ new @ str_replace ''rate'' new q"
  by (rule str_replace_token [OF _ rate_boundary]) simp_all

lemma str_replace_RATE_token:
  "\<not> sublist ''RATE'' p \<Longrightarrow>
     str_replace ''RATE'' new (p @ ''RATE'' @ q) = p @ new @ str_replace ''RATE'' new q"
  by (rule str_replace_token [OF _ RATE_boundary]) simp_all

lemma rate_nonempty: "''rate'' \<noteq> []" "''RATE'' \<noteq> []"
  by simp_all

lemma rate_to_vega_unchanged:
  assumes "\<not> sublist ''rate'' s" and "\<not> sublist ''RATE'' s"
  shows "rate_to_vega s = s"
proof -
  have "str_replace ''rate'' ''vega'' s = s"
    using rate_nonempty(1) assms(1) by (rule str_replace_unchanged)
  moreover have "str_replace ''RATE'' ''VEGA'' s = s"
    using rate_nonempty(2) assms(2) by (rule str_replace_unchanged)
  ultimately show ?thesis by (simp only: rate_to_vega_def)
qed

lemma rate_to_vega_no_token:
  "\<not> sublist ''rate'' (rate_to_vega s) \<and> \<not> sublist ''RATE'' (rate_to_vega s)"
proof -
  let ?t = "str_replace ''rate'' ''vega'' s"
  have a: "\<not> sublist ''rate'' ?t"
    by (rule str_replace_removes_old) simp_all
  have b: "sublist ''rate'' ?t" if "sublist ''rate'' (str_replace ''RATE'' ''VEGA'' ?t)"
    using that by (rule sublist_str_replace [rotated 5]) simp_all
  have "\<not> sublist ''rate'' (str_replace ''RATE'' ''VEGA'' ?t)"
    using a b by (rule contrapos_nn)
  moreover have "\<not> sublist ''RATE'' (str_replace ''RATE'' ''VEGA'' ?t)"
    by (rule str_replace_removes_old) simp_all
  ultimately show ?thesis by (simp only: rate_to_vega_def simp_thms)
qed

lemma rate_to_vega_lower_token:
  assumes "\<not> sublist ''rate'' p" "\<not> sublist ''RATE'' p"
    and "\<not> sublist ''rate'' q" "\<not> sublist ''RATE'' q"
  shows "rate_to_vega (p @ ''rate'' @ q) = p @ ''vega'' @ q"
proof -
  have "str_replace ''rate'' ''vega'' q = q"
    using rate_nonempty(1) assms(3) by (rule str_replace_unchanged)
  with str_replace_rate_token [OF assms(1), of "''vega''" q]
  have first: "str_replace ''rate'' ''vega'' (p @ ''rate'' @ q) = p @ ''vega'' @ q"
    by (simp only:)
  have "sublist ''RATE'' p \<or> sublist ''RATE'' q" if "sublist ''RATE'' (p @ ''vega'' @ q)"
    using that by (rule sublist_disjoint_middle) simp_all
  with assms(2,4) have "\<not> sublist ''RATE'' (p @ ''vega'' @ q)"
    by blast
  with rate_nonempty(2) have "str_replace ''RATE'' ''VEGA'' (p @ ''vega'' @ q) = p @ ''vega'' @ q"
    by (rule str_replace_unchanged)
  with first show ?thesis
    by (simp only: rate_to_vega_def)
qed

lemma rate_to_vega_upper_token:
  assumes "\<not> sublist ''rate'' p" "\<not> sublist ''RATE'' p"
    and "\<not> sublist ''rate'' q" "\<not> sublist ''RATE'' q"
  shows "rate_to_vega (p @ ''RATE'' @ q) = p @ ''VEGA'' @ q"
proof -
  have "sublist ''rate'' p \<or> sublist ''rate'' q" if "sublist ''rate'' (p @ ''RATE'' @ q)"
    using that by (rule sublist_disjoint_middle) simp_all
  with assms(1,3) have "\<not> sublist ''rate'' (p @ ''RATE'' @ q)"
    by blast
  with rate_nonempty(1)
  have first: "str_replace ''rate'' ''vega'' (p @ ''RATE'' @ q) = p @ ''RATE'' @ q"
    by (rule str_replace_unchanged)
  have "str_replace ''RATE'' ''VEGA'' q = q"
    using rate_nonempty(2) assms(4) by (rule str_replace_unchanged)
  with str_replace_RATE_token [OF assms(2), of "''VEGA''" q]
  have "str_replace ''RATE'' ''VEGA'' (p @ ''RATE'' @ q) = p @ ''VEGA'' @ q"
    by (simp only:)
  with first show ?thesis
    by (simp only: rate_to_vega_def)
qed

text \<open>
  C9, as the code has it. The column looked up for a filter is its resolved alias with
  the token translated in two spellings only, \<open>rate\<close> to \<open>vega\<close> and \<open>RATE\<close> to
  \<open>VEGA\<close>: an alias with neither spelling is looked up as it is, no occurrence of either
  spelling is left in the column name, and a single token between two parts free of both
  spellings is replaced where it stands.
\<close>

theorem token_translated_in_two_casings_only:
  "(\<not> sublist ''rate'' (resolve_alias obsdata f) \<and> \<not> sublist ''RATE'' (resolve_alias obsdata f)
      \<longrightarrow> sfiltername obsdata f = resolve_alias obsdata f)
   \<and> \<not> sublist ''rate'' (sfiltername obsdata f)
   \<and> \<not> sublist ''RATE'' (sfiltername obsdata f)
   \<and> (\<not> sublist ''rate'' p \<and> \<not> sublist ''RATE'' p \<and> \<not> sublist ''rate'' q \<and> \<not> sublist ''RATE'' q
      \<longrightarrow> (resolve_alias obsdata f = p @ ''rate'' @ q \<longrightarrow> sfiltername obsdata f = p @ ''vega'' @ q)
        \<and> (resolve_alias obsdata f = p @ ''RATE'' @ q \<longrightarrow> sfiltername obsdata f = p @ ''VEGA'' @ q))"
proof -
  have "sfiltername obsdata f = resolve_alias obsdata f"
    if "\<not> sublist ''rate'' (resolve_alias obsdata f)" "\<not> sublist ''RATE'' (resolve_alias obsdata f)"
    unfolding sfiltername_def using that by (rule rate_to_vega_unchanged)
  moreover have "\<not> sublist ''rate'' (sfiltername obsdata f)"
    and "\<not> sublist ''RATE'' (sfiltername obsdata f)"
    unfolding sfiltername_def
    using rate_to_vega_no_token [of "resolve_alias obsdata f"] by blast+
  moreover have "sfiltername obsdata f = p @ ''vega'' @ q"
    if "\<not> sublist ''rate'' p" "\<not> sublist ''RATE'' p" "\<not> sublist ''rate'' q" "\<not> sublist ''RATE'' q"
      "resolve_alias obsdata f = p @ ''rate'' @ q"
    unfolding sfiltername_def that(5) using that(1-4) by (rule rate_to_vega_lower_token)
  moreover have "sfiltername obsdata f = p @ ''VEGA'' @ q"
    if "\<not> sublist ''rate'' p" "\<not> sublist ''RATE'' p" "\<not> sublist ''rate'' q" "\<not> sublist ''RATE'' q"
      "resolve_alias obsdata f = p @ ''RATE'' @ q"
    unfolding sfiltername_def that(5) using that(1-4) by (rule rate_to_vega_upper_token)
  ultimately show ?thesis by blast
qed

lemma no_token_in_phat_names:
  "\<not> sublist ''rate'' ''F475W_Rate''" "\<not> sublist ''RATE'' ''F475W_Rate''"
  "\<not> sublist ''rate'' ''F475W_''" "\<not> sublist ''RATE'' ''F475W_''"
  "\<not> sublist ''rate'' ''F814W_''" "\<not> sublist ''RATE'' ''F814W_''"
  by (simp_all add: sublist_Cons_right)

theorem token_translated_in_two_casings_only_witness:
  "\<not> sublist ''rate'' (resolve_alias capitalised_catalog ''HST_WFC3_F475W'')
   \<and> \<not> sublist ''RATE'' (resolve_alias capitalised_catalog ''HST_WFC3_F475W'')
   \<and> sfiltername capitalised_catalog ''HST_WFC3_F475W'' = ''F475W_Rate''
   \<and> \<not> sublist ''rate'' ''F814W_'' \<and> \<not> sublist ''RATE'' ''F814W_''
   \<and> \<not> sublist ''rate'' ''F475W_'' \<and> \<not> sublist ''RATE'' ''F475W_''
   \<and> \<not> sublist ''rate'' [] \<and> \<not> sublist ''RATE'' []
   \<and> resolve_alias phat_catalog ''HST_WFC3_F814W'' = ''F814W_'' @ ''rate'' @ []
   \<and> sfiltername phat_catalog ''HST_WFC3_F814W'' = ''F814W_vega''
   \<and> resolve_alias phat_catalog ''HST_WFC3_F475W'' = ''F475W_'' @ ''RATE'' @ []
   \<and> sfiltername phat_catalog ''HST_WFC3_F475W'' = ''F475W_VEGA''"
proof -
  have r1: "resolve_alias capitalised_catalog ''HST_WFC3_F475W'' = ''F475W_Rate''"
    by (simp add: capitalised_catalog_def)
  have r2: "resolve_alias phat_catalog ''HST_WFC3_F814W'' = ''F814W_'' @ ''rate'' @ []"
    by (simp add: phat_catalog_def)
  have r3: "resolve_alias phat_catalog ''HST_WFC3_F475W'' = ''F475W_'' @ ''RATE'' @ []"
    by (simp add: phat_catalog_def)
  have e: "\<not> sublist ''rate'' []" "\<not> sublist ''RATE'' []"
    by simp_all
  have "sfiltername capitalised_catalog ''HST_WFC3_F475W''
        = resolve_alias capitalised_catalog ''HST_WFC3_F475W''"
    using token_translated_in_two_casings_only [of capitalised_catalog "''HST_WFC3_F475W''"]
      no_token_in_phat_names(1,2) by (simp only: r1 simp_thms)
  moreover have "sfiltername phat_catalog ''HST_WFC3_F814W'' = ''F814W_'' @ ''vega'' @ []"
    using token_translated_in_two_casings_only
      [of phat_catalog "''HST_WFC3_F814W''" "''F814W_''" "[]"]
      no_token_in_phat_names(5,6) e r2 by (simp only: simp_thms)
  moreover have "sfiltername phat_catalog ''HST_WFC3_F475W'' = ''F475W_'' @ ''VEGA'' @ []"
    using token_translated_in_two_casings_only
      [of phat_catalog "''HST_WFC3_F475W''" "''F475W_''" "[]"]
      no_token_in_phat_names(3,4) e r3 by (simp only: simp_thms)
  ultimately show ?thesis
    using no_token_in_phat_names e r1 r2 r3 by simp
qed

text \<open>
  C9 as stated fails for a token spelled \<open>Rate\<close>: the alias is looked up untranslated,
  and the lookup raises although the catalog has the magnitude column in every casing.
\<close>

theorem capitalised_token_counterexample:
  "resolve_alias capitalised_catalog ''HST_WFC3_F475W'' = ''F475W_Rate''
   \<and> sfiltername capitalised_catalog ''HST_WFC3_F475W'' = ''F475W_Rate''
   \<and> construct_mag_cuts np_percentile single_datamodel capitalised_catalog
       = Inl (KeyError ''F475W_Rate'')"
  by (simp add: phat_eval single_datamodel_def capitalised_catalog_def)

section \<open>The run: properties\<close>

lemma invoke_eq:
  "invoke c f (tr, w) = (fst (f w), (tr @ [c], snd (f w)))"
  by (simp add: invoke_def split: prod.splits)

lemma invoke_trace: "fst (snd (invoke c f s)) = fst s @ [c]"
  by (simp add: invoke_def split: prod.splits)

text \<open>
  C2. When the SED list \<open>./<project>/<project>_inputAST_seds.txt\<close> exists, the SED
  selection makes one call, \<open>Table.read\<close> of that file, whatever the selection method:
  its outcome is the outcome of that call and neither sampler is invoked.
\<close>

theorem existing_sed_list_is_loaded:
  assumes "isfile ext (outfile_seds dm) w"
  shows "select_seds ext dm flux_bin_method mag_cuts (tr, w) =
           (fst (table_read ext (outfile_seds dm) ''ascii'' w),
            (tr @ [Table_read (outfile_seds dm) ''ascii''],
             snd (table_read ext (outfile_seds dm) ''ascii'' w)))
         \<and> outfile_seds dm = ''./'' @ project dm @ ''/'' @ project dm @ ''_inputAST_seds.txt''"
  using assms by (simp add: select_seds_def invoke_eq outfile_seds_def project_file_def)

theorem existing_sed_list_is_loaded_witness:
  "isfile (sim_ext phat_catalog) (outfile_seds phat_datamodel) [''./phat/phat_inputAST_seds.txt'']
   \<and> select_seds (sim_ext phat_catalog) phat_datamodel False [Fin 30.8, Fin 27.9]
        ([], [''./phat/phat_inputAST_seds.txt''])
       = (Inr ''Table.read'',
          ([Table_read ''./phat/phat_inputAST_seds.txt'' ''ascii''],
           [''./phat/phat_inputAST_seds.txt'']))
   \<and> select_seds (sim_ext phat_catalog) phat_datamodel True [Fin 30.8, Fin 27.9]
        ([], [''./phat/phat_inputAST_seds.txt''])
       = (Inr ''Table.read'',
          ([Table_read ''./phat/phat_inputAST_seds.txt'' ''ascii''],
           [''./phat/phat_inputAST_seds.txt'']))"
proof -
  have h: "isfile (sim_ext phat_catalog) (outfile_seds phat_datamodel)
             [''./phat/phat_inputAST_seds.txt'']"
    by (simp add: sim_ext_def outfile_seds_def project_file_def phat_datamodel_def)
  have p: "outfile_seds phat_datamodel = ''./phat/phat_inputAST_seds.txt''"
    by (simp add: outfile_seds_def project_file_def phat_datamodel_def)
  have t: "table_read (sim_ext phat_catalog) ''./phat/phat_inputAST_seds.txt'' ''ascii''
             [''./phat/phat_inputAST_seds.txt'']
           = (Inr ''Table.read'', [''./phat/phat_inputAST_seds.txt''])"
    by (simp add: sim_ext_def)
  note loaded = existing_sed_list_is_loaded [OF h, THEN conjunct1]
  show ?thesis
    using h loaded [of False "[Fin 30.8, Fin 27.9]" "[]"] loaded [of True "[Fin 30.8, Fin 27.9]" "[]"]
    by (simp only: p t fst_conv snd_conv append_Nil simp_thms)
qed

lemma phat_cuts:
  "construct_mag_cuts np_percentile phat_datamodel phat_catalog = Inr [Fin 30.8, Fin 27.9]"
  by (simp add: phat_eval)

lemma phat_fields:
  "obsfile phat_datamodel = ''phat.fits''"
  "filters phat_datamodel = [''HST_WFC3_F475W'', ''HST_WFC3_F814W'']"
  "ast_with_positions phat_datamodel"
  "ast_source_density_table phat_datamodel = None"
  "ast_background_table phat_datamodel = None"
  "ast_reference_image phat_datamodel = Some ''phat_ref.fits''"
  "ast_pixel_distribution phat_datamodel = 10"
  "outfile phat_datamodel = ''./phat/phat_inputAST.txt''"
  "outfile_seds phat_datamodel = ''./phat/phat_inputAST_seds.txt''"
  "outfile_params phat_datamodel = ''./phat/phat_ASTparams.fits''"
  "bins_outfile phat_datamodel = ''./phat/phat_ASTfluxbins.txt''"
  by (simp_all add: phat_datamodel_def outfile_def outfile_seds_def outfile_params_def
      bins_outfile_def project_file_def)

lemmas phat_run =
  make_ast_inputs_def select_seds_def assign_positions_def invoke_def sim_ext_def Let_def
  phat_cuts phat_fields

text \<open>
  C3 fails on the code: with the SED list absent and the random method chosen, the run
  stops with \<open>UnboundLocalError\<close> at line 104, after the parameter check and the
  catalog load, and \<open>pick_models\<close> is never called.
\<close>

theorem random_selection_raises_unbound_local:
  "make_ast_inputs (sim_ext phat_catalog) phat_datamodel False ([], [])
     = (Inl (UnboundLocalError ''modelsedgrid_filename''),
        ([Verify_input_format phat_datamodel,
          Get_obscat ''phat.fits'' [''HST_WFC3_F475W'', ''HST_WFC3_F814W'']], []))"
  by (simp add: phat_run)

text \<open>The same for every configuration and all collaborators.\<close>

lemma random_selection_unbound_local:
  "\<not> isfile ext (outfile_seds dm) w \<Longrightarrow>
     select_seds ext dm False mag_cuts (tr, w)
       = (Inl (UnboundLocalError ''modelsedgrid_filename''), (tr, w))"
  by (simp add: select_seds_def)














text \<open>
  C5. With positions wanted and both maps configured, the position stage makes one call:
  the map-based sampler on the source-density map, with all filters defining the region.
  The stage raises nothing of its own: its outcome is the outcome of that call.
\<close>

theorem source_density_map_has_priority:
  assumes "ast_with_positions dm"
    and "ast_source_density_table dm = Some sd_table"
    and "ast_background_table dm = Some bg_table"
  shows "let args = \<lparr>fm_catalog = obsdata, fm_chosen_seds = chosen_seds,
                     fm_input_map = sd_table, fm_N_bins = ast_N_bins dm,
                     fm_arg5 = ast_realization_per_model dm, fm_outfile = outfile dm,
                     fm_refimage = ast_reference_image dm, fm_refimage_hdu = 1,
                     fm_wcs_origin = 1, fm_Nrealize = 1,
                     fm_set_coord_boundary = ast_coord_boundary dm,
                     fm_region_from_filters = Some ''all''\<rparr>
         in assign_positions ext dm obsdata chosen_seds (tr, w)
              = (fst (pick_positions_from_map ext args w),
                 (tr @ [Pick_positions_from_map args],
                  snd (pick_positions_from_map ext args w)))"
  using assms by (simp add: assign_positions_def invoke_eq Let_def)

theorem source_density_map_has_priority_witness:
  "ast_with_positions both_maps_datamodel
   \<and> ast_source_density_table both_maps_datamodel = Some ''phat_sourceden_map.hd5''
   \<and> ast_background_table both_maps_datamodel = Some ''phat_background_map.hd5''
   \<and> assign_positions (sim_ext phat_catalog) both_maps_datamodel phat_catalog ''Table.read''
        ([], [])
       = (Inr (),
          ([Pick_positions_from_map
              \<lparr>fm_catalog = phat_catalog, fm_chosen_seds = ''Table.read'',
               fm_input_map = ''phat_sourceden_map.hd5'', fm_N_bins = Some 4,
               fm_arg5 = 20, fm_outfile = ''./phat/phat_inputAST.txt'',
               fm_refimage = Some ''phat_ref.fits'', fm_refimage_hdu = 1,
               fm_wcs_origin = 1, fm_Nrealize = 1,
               fm_set_coord_boundary = None,
               fm_region_from_filters = Some ''all''\<rparr>],
           [''./phat/phat_inputAST.txt'']))"
proof -
  have h1: "ast_with_positions both_maps_datamodel"
    by (simp add: both_maps_datamodel_def phat_datamodel_def)
  have h2: "ast_source_density_table both_maps_datamodel = Some ''phat_sourceden_map.hd5''"
    by (simp add: both_maps_datamodel_def phat_datamodel_def)
  have h3: "ast_background_table both_maps_datamodel = Some ''phat_background_map.hd5''"
    by (simp add: both_maps_datamodel_def phat_datamodel_def)
  show ?thesis
    using h1 h2 h3
      source_density_map_has_priority [OF h1 h2 h3, of phat_catalog "''Table.read''"
        "sim_ext phat_catalog" "[]" "[]"]
    by (simp add: Let_def sim_ext_def outfile_def project_file_def both_maps_datamodel_def
        phat_datamodel_def)
qed

text \<open>
  Without a map, the position stage does not depend on the SEDs that were chosen.
\<close>

lemma catalog_branch_ignores_chosen_seds:
  assumes "ast_source_density_table dm = None" and "ast_background_table dm = None"
  shows "assign_positions ext dm obsdata chosen_seds s
           = assign_positions ext dm obsdata other_seds s"
  using assms by (simp add: assign_positions_def)

text \<open>
  C6 fails on the code: in the branch without a map the call is
  \<open>pick_positions(obsdata, outfile, ast_pixel_distribution, refimage=ast_reference_image)\<close>.
  The chosen SEDs are not among its arguments, and the file it names is the manifest,
  not the SED list: the call is the same whatever SEDs were chosen.
\<close>

theorem catalog_branch_omits_chosen_seds:
  "assign_positions (sim_ext phat_catalog) phat_datamodel phat_catalog chosen_seds (tr, w)
     = (Inr (),
        (tr @ [Pick_positions
                 \<lparr>pp_catalog = phat_catalog, pp_outfile = ''./phat/phat_inputAST.txt'',
                  pp_pixel_distribution = 10, pp_refimage = Some ''phat_ref.fits''\<rparr>],
         ''./phat/phat_inputAST.txt'' # w))"
  by (simp add: assign_positions_def invoke_eq Let_def sim_ext_def outfile_def project_file_def
      phat_datamodel_def)

text \<open>
  C10. In each map branch the position stage is one call of the map-based sampler, with
  \<open>Nrealize = 1\<close>, \<open>refimage_hdu = 1\<close> and \<open>wcs_origin = 1\<close> whatever the configuration; the
  configured number of realizations per model is the fifth positional argument. The
  outcome of the stage is the outcome of that call.
\<close>

theorem map_branches_fix_nrealize_hdu_origin:
  assumes "ast_with_positions dm"
  shows "(ast_source_density_table dm = Some sd_table
          \<longrightarrow> (let args = \<lparr>fm_catalog = obsdata, fm_chosen_seds = chosen_seds,
                             fm_input_map = sd_table, fm_N_bins = ast_N_bins dm,
                             fm_arg5 = ast_realization_per_model dm, fm_outfile = outfile dm,
                             fm_refimage = ast_reference_image dm, fm_refimage_hdu = 1,
                             fm_wcs_origin = 1, fm_Nrealize = 1,
                             fm_set_coord_boundary = ast_coord_boundary dm,
                             fm_region_from_filters = Some ''all''\<rparr>
               in assign_positions ext dm obsdata chosen_seds (tr, w)
                    = (fst (pick_positions_from_map ext args w),
                       (tr @ [Pick_positions_from_map args],
                        snd (pick_positions_from_map ext args w)))))
         \<and> (ast_source_density_table dm = None \<and> ast_background_table dm = Some bg_table
          \<longrightarrow> (let args = \<lparr>fm_catalog = obsdata, fm_chosen_seds = chosen_seds,
                             fm_input_map = bg_table, fm_N_bins = ast_N_bins dm,
                             fm_arg5 = ast_realization_per_model dm, fm_outfile = outfile dm,
                             fm_refimage = ast_reference_image dm, fm_refimage_hdu = 1,
                             fm_wcs_origin = 1, fm_Nrealize = 1,
                             fm_set_coord_boundary = ast_coord_boundary dm,
                             fm_region_from_filters = None\<rparr>
               in assign_positions ext dm obsdata chosen_seds (tr, w)
                    = (fst (pick_positions_from_map ext args w),
                       (tr @ [Pick_positions_from_map args],
                        snd (pick_positions_from_map ext args w)))))"
  using assms by (simp add: assign_positions_def invoke_eq Let_def)

theorem map_branches_fix_nrealize_hdu_origin_witness:
  "ast_with_positions both_maps_datamodel
   \<and> ast_source_density_table both_maps_datamodel = Some ''phat_sourceden_map.hd5''
   \<and> ast_realization_per_model both_maps_datamodel = 20
   \<and> assign_positions (sim_ext phat_catalog) both_maps_datamodel phat_catalog ''Table.read''
        ([], [])
       = (Inr (),
          ([Pick_positions_from_map
              \<lparr>fm_catalog = phat_catalog, fm_chosen_seds = ''Table.read'',
               fm_input_map = ''phat_sourceden_map.hd5'', fm_N_bins = Some 4,
               fm_arg5 = 20, fm_outfile = ''./phat/phat_inputAST.txt'',
               fm_refimage = Some ''phat_ref.fits'', fm_refimage_hdu = 1,
               fm_wcs_origin = 1, fm_Nrealize = 1,
               fm_set_coord_boundary = None,
               fm_region_from_filters = Some ''all''\<rparr>],
           [''./phat/phat_inputAST.txt'']))
   \<and> ast_with_positions background_datamodel
   \<and> ast_source_density_table background_datamodel = None
   \<and> ast_background_table background_datamodel = Some ''phat_background_map.hd5''
   \<and> ast_realization_per_model background_datamodel = 20
   \<and> assign_positions (sim_ext phat_catalog) background_datamodel phat_catalog ''Table.read''
        ([], [])
       = (Inr (),
          ([Pick_positions_from_map
              \<lparr>fm_catalog = phat_catalog, fm_chosen_seds = ''Table.read'',
               fm_input_map = ''phat_background_map.hd5'', fm_N_bins = Some 4,
               fm_arg5 = 20, fm_outfile = ''./phat/phat_inputAST.txt'',
               fm_refimage = Some ''phat_ref.fits'', fm_refimage_hdu = 1,
               fm_wcs_origin = 1, fm_Nrealize = 1,
               fm_set_coord_boundary = None,
               fm_region_from_filters = None\<rparr>],
           [''./phat/phat_inputAST.txt'']))"
proof -
  note defs = both_maps_datamodel_def background_datamodel_def phat_datamodel_def
  have h1: "ast_with_positions both_maps_datamodel"
    and h2: "ast_source_density_table both_maps_datamodel = Some ''phat_sourceden_map.hd5''"
    and h3: "ast_realization_per_model both_maps_datamodel = 20"
    by (simp_all add: defs)
  have g1: "ast_with_positions background_datamodel"
    and g2: "ast_source_density_table background_datamodel = None"
    and g3: "ast_background_table background_datamodel = Some ''phat_background_map.hd5''"
    and g4: "ast_realization_per_model background_datamodel = 20"
    by (simp_all add: defs)
  note sd = map_branches_fix_nrealize_hdu_origin
    [OF h1, where sd_table = "''phat_sourceden_map.hd5''" and obsdata = phat_catalog
       and chosen_seds = "''Table.read''" and ext = "sim_ext phat_catalog" and tr = "[]"
       and w = "[]", THEN conjunct1, rule_format, OF h2]
  note bg = map_branches_fix_nrealize_hdu_origin
    [OF g1, where bg_table = "''phat_background_map.hd5''" and obsdata = phat_catalog
       and chosen_seds = "''Table.read''" and ext = "sim_ext phat_catalog" and tr = "[]"
       and w = "[]", THEN conjunct2, rule_format, OF conjI [OF g2 g3]]
  have a: "assign_positions (sim_ext phat_catalog) both_maps_datamodel phat_catalog ''Table.read''
        ([], [])
       = (Inr (),
          ([Pick_positions_from_map
              \<lparr>fm_catalog = phat_catalog, fm_chosen_seds = ''Table.read'',
               fm_input_map = ''phat_sourceden_map.hd5'', fm_N_bins = Some 4,
               fm_arg5 = 20, fm_outfile = ''./phat/phat_inputAST.txt'',
               fm_refimage = Some ''phat_ref.fits'', fm_refimage_hdu = 1,
               fm_wcs_origin = 1, fm_Nrealize = 1,
               fm_set_coord_boundary = None,
               fm_region_from_filters = Some ''all''\<rparr>],
           [''./phat/phat_inputAST.txt'']))"
    using sd by (simp add: Let_def sim_ext_def outfile_def project_file_def defs)
  have b: "assign_positions (sim_ext phat_catalog) background_datamodel phat_catalog ''Table.read''
        ([], [])
       = (Inr (),
          ([Pick_positions_from_map
              \<lparr>fm_catalog = phat_catalog, fm_chosen_seds = ''Table.read'',
               fm_input_map = ''phat_background_map.hd5'', fm_N_bins = Some 4,
               fm_arg5 = 20, fm_outfile = ''./phat/phat_inputAST.txt'',
               fm_refimage = Some ''phat_ref.fits'', fm_refimage_hdu = 1,
               fm_wcs_origin = 1, fm_Nrealize = 1,
               fm_set_coord_boundary = None,
               fm_region_from_filters = None\<rparr>],
           [''./phat/phat_inputAST.txt'']))"
    using bg by (simp add: Let_def sim_ext_def outfile_def project_file_def defs)
  show ?thesis using h1 h2 h3 a g1 g2 g3 g4 b by (intro conjI)
qed

end
